theory Spec2Isabelle
  imports Main
begin

section \<open>GeolocationPermissions: the permission state machine of a tab\<close>

text \<open>
  A shallow embedding of \<^verbatim>\<open>WebKit/android/WebCoreSupport/GeolocationPermissions.cpp\<close>.

  \<^item> \<^verbatim>\<open>WebCore::String\<close> is \<open>string option\<close>: \<open>None\<close> is the null String that a default
    constructed member holds, \<open>Some []\<close> the empty String that \<^verbatim>\<open>""\<close> gives.
  \<^item> \<^verbatim>\<open>PermissionsMap\<close> (a \<^verbatim>\<open>HashMap<String, bool>\<close>) is a map \<open>string \<rightharpoonup> bool\<close>; hashing
    a null key is a failure.
  \<^item> An object of the class is a record; objects live in a store indexed by address, and
    the static members \<^verbatim>\<open>s_permanentPermissions\<close> and \<^verbatim>\<open>s_instances\<close> are fields of the
    program state, so that the loop over \<^verbatim>\<open>s_instances\<close> reaches the calling object too.
  \<^item> What an object does to its collaborators (\<^verbatim>\<open>m_webViewCore\<close> and the
    \<^verbatim>\<open>Geolocation\<close> objects of its frames) is recorded, oldest call first, in \<open>calls\<close>.
\<close>

subsection \<open>Data\<close>

text \<open>
  \<^verbatim>\<open>WebCore::String\<close> is not part of the file. Two Strings are equal when both are null or
  both hold the same characters; the null String and the empty String differ, and
  \<^verbatim>\<open>isEmpty()\<close> holds of both.
\<close>

type_synonym String = "string option"

definition isEmpty :: "String \<Rightarrow> bool" where
  "isEmpty s = (case s of None \<Rightarrow> True | Some characters \<Rightarrow> characters = [])"

type_synonym PermissionsMap = "string \<rightharpoonup> bool"

text \<open>
  A frame, as far as this file reads it: \<^verbatim>\<open>frame->document()->securityOrigin()->toString()\<close>,
  which builds a String and so is never null, and
  \<^verbatim>\<open>frame->domWindow()->navigator()->optionalGeolocation()\<close>, which is the frame's
  \<^verbatim>\<open>Geolocation\<close> object (named by a number) or null.
\<close>

record Frame =
  securityOrigin :: string
  optionalGeolocation :: "nat option"

datatype call =
    ShowPrompt String      \<comment> \<open>\<^verbatim>\<open>m_webViewCore->geolocationPermissionsShowPrompt(origin)\<close>\<close>
  | HidePrompt             \<comment> \<open>\<^verbatim>\<open>m_webViewCore->geolocationPermissionsHidePrompt()\<close>\<close>
  | SetIsAllowed nat bool  \<comment> \<open>\<^verbatim>\<open>geolocation->setIsAllowed(allow)\<close>\<close>

record CallbackData =
  callback_origin :: String
  callback_allow :: bool

text \<open>
  \<open>m_mainFrame\<close> holds the frames that the loop
  \<^verbatim>\<open>for (frame = m_mainFrame; frame; frame = frame->tree()->traverseNext())\<close> visits, in
  order. \<open>m_timer\<close> tells whether the one-shot timer is active.
\<close>

record GeolocationPermissions =
  m_mainFrame :: "Frame list"
  m_originInProgress :: String
  m_queuedOrigins :: "String list"
  m_temporaryPermissions :: PermissionsMap
  m_callbackData :: CallbackData
  m_timer :: bool
  calls :: "call list"

record world =
  s_permanentPermissions :: PermissionsMap
  s_instances :: "nat list"
  objects :: "nat \<Rightarrow> GeolocationPermissions"

text \<open>
  The failures of the file. \<^verbatim>\<open>cancelPendingRequests\<close> reads \<^verbatim>\<open>iter->second\<close> where
  \<^verbatim>\<open>iter\<close> may be the end iterator of \<^verbatim>\<open>s_permanentPermissions\<close>: the argument of the
  \<^verbatim>\<open>ASSERT\<close> before the read holds a declaration, so the file compiles only where
  \<^verbatim>\<open>ASSERT\<close> expands to nothing, and there the read has no defined value. A hash map
  hashes the characters of its key, which a null String does not have. The destructor
  removes position \<^verbatim>\<open>s_instances.find(this)\<close> without comparing it with \<^verbatim>\<open>WTF::notFound\<close>.
\<close>

datatype error = EndIteratorDereferenced | NullKeyHashed | RemoveNotFound

subsection \<open>The containers of WTF\<close>

text \<open>\<^verbatim>\<open>Vector::find\<close>: the first index holding the value; \<open>None\<close> is \<^verbatim>\<open>WTF::notFound\<close>.\<close>

fun find_Vector :: "'a list \<Rightarrow> 'a \<Rightarrow> nat option" where
  "find_Vector [] v = None"
| "find_Vector (x # xs) v = (if x = v then Some 0 else map_option Suc (find_Vector xs v))"

text \<open>\<^verbatim>\<open>Vector::remove(position)\<close>, for a position inside the vector.\<close>

definition remove_Vector :: "'a list \<Rightarrow> nat \<Rightarrow> 'a list" where
  "remove_Vector xs position = take position xs @ drop (Suc position) xs"

subsection \<open>The timer\<close>

text \<open>
  Modelled from the spec: \<^verbatim>\<open>WebCore::Timer\<close> is not part of the file. The spec's
  AsyncResponder schedules one delivery on the next turn of the task loop; a second
  scheduling before the delivery leaves a single delivery pending, and cancelling leaves
  none. So the timer is one flag: \<^verbatim>\<open>startOneShot(0)\<close> sets it, \<^verbatim>\<open>stop()\<close> clears it.
\<close>

definition startOneShot :: "GeolocationPermissions \<Rightarrow> GeolocationPermissions" where
  "startOneShot obj = obj\<lparr>m_timer := True\<rparr>"

definition stop :: "GeolocationPermissions \<Rightarrow> GeolocationPermissions" where
  "stop obj = obj\<lparr>m_timer := False\<rparr>"

subsection \<open>The member functions\<close>

text \<open>\<open>modify this f w\<close> is the assignment \<^verbatim>\<open>*this = f(*this)\<close>.\<close>

definition modify :: "nat \<Rightarrow> (GeolocationPermissions \<Rightarrow> GeolocationPermissions) \<Rightarrow> world \<Rightarrow> world" where
  "modify this f w = w\<lparr>objects := (objects w)(this := f (objects w this))\<rparr>"

text \<open>The loop of \<^verbatim>\<open>maybeCallbackFrames\<close>: the calls of \<^verbatim>\<open>setIsAllowed\<close> it makes.\<close>

fun setIsAllowedCalls :: "Frame list \<Rightarrow> String \<Rightarrow> bool \<Rightarrow> call list" where
  "setIsAllowedCalls [] origin allow = []"
| "setIsAllowedCalls (frame # frames) origin allow =
     (if origin = Some (securityOrigin frame)
      then (case optionalGeolocation frame of
              Some geolocation \<Rightarrow> [SetIsAllowed geolocation allow]
            | None \<Rightarrow> [])
      else [])
     @ setIsAllowedCalls frames origin allow"

definition maybeCallbackFrames :: "nat \<Rightarrow> String \<Rightarrow> bool \<Rightarrow> world \<Rightarrow> world" where
  "maybeCallbackFrames this origin allow w =
     modify this (\<lambda>obj. obj\<lparr>calls := calls obj @ setIsAllowedCalls (m_mainFrame obj) origin allow\<rparr>) w"

definition makeAsynchronousCallbackToGeolocation :: "nat \<Rightarrow> String \<Rightarrow> bool \<Rightarrow> world \<Rightarrow> world" where
  "makeAsynchronousCallbackToGeolocation this origin allow w =
     modify this (\<lambda>obj. startOneShot
       (obj\<lparr>m_callbackData := \<lparr>callback_origin = origin, callback_allow = allow\<rparr>\<rparr>)) w"

text \<open>
  In \<^verbatim>\<open>queryPermissionState\<close> the keys of both lookups are the characters of
  \<^verbatim>\<open>originString\<close>, which is not null.
\<close>

definition queryPermissionState :: "nat \<Rightarrow> Frame \<Rightarrow> world \<Rightarrow> world" where
  "queryPermissionState this frame w =
     (let originString = securityOrigin frame in
      case m_temporaryPermissions (objects w this) originString of
        Some allow \<Rightarrow> makeAsynchronousCallbackToGeolocation this (Some originString) allow w
      | None \<Rightarrow>
         (case s_permanentPermissions w originString of
            Some allow \<Rightarrow> makeAsynchronousCallbackToGeolocation this (Some originString) allow w
          | None \<Rightarrow>
             if isEmpty (m_originInProgress (objects w this))
             then modify this (\<lambda>obj. obj\<lparr>m_originInProgress := Some originString,
                                          calls := calls obj @ [ShowPrompt (Some originString)]\<rparr>) w
             else if m_originInProgress (objects w this) \<noteq> Some originString
                     \<and> find_Vector (m_queuedOrigins (objects w this)) (Some originString) \<noteq> None
             then modify this (\<lambda>obj. obj\<lparr>m_queuedOrigins :=
                                            m_queuedOrigins obj @ [Some originString]\<rparr>) w
             else w))"

text \<open>
  \<^verbatim>\<open>recordPermissionState\<close> keys both \<^verbatim>\<open>set\<close> calls by \<^verbatim>\<open>m_originInProgress\<close> and the
  \<^verbatim>\<open>remove\<close> by its parameter.
\<close>

definition recordPermissionState :: "nat \<Rightarrow> String \<Rightarrow> bool \<Rightarrow> bool \<Rightarrow> world \<Rightarrow> error + world" where
  "recordPermissionState this origin allow remember w =
     (case m_originInProgress (objects w this) of
        None \<Rightarrow> Inl NullKeyHashed
      | Some inProgress \<Rightarrow>
          if remember
          then (case origin of
                  None \<Rightarrow> Inl NullKeyHashed
                | Some removed \<Rightarrow>
                    Inr (modify this (\<lambda>obj. obj\<lparr>m_temporaryPermissions :=
                                                   (m_temporaryPermissions obj)(removed := None)\<rparr>)
                          (w\<lparr>s_permanentPermissions :=
                               (s_permanentPermissions w)(inProgress \<mapsto> allow)\<rparr>)))
          else Inr (modify this (\<lambda>obj. obj\<lparr>m_temporaryPermissions :=
                                              (m_temporaryPermissions obj)(inProgress \<mapsto> allow)\<rparr>) w))"

definition cancelPendingRequests :: "nat \<Rightarrow> String \<Rightarrow> world \<Rightarrow> error + world" where
  "cancelPendingRequests this origin w =
     (case find_Vector (m_queuedOrigins (objects w this)) origin of
        None \<Rightarrow> Inr w
      | Some index \<Rightarrow>
         (case origin of
            None \<Rightarrow> Inl NullKeyHashed
          | Some key \<Rightarrow>
             (case s_permanentPermissions w key of
                None \<Rightarrow> Inl EndIteratorDereferenced
              | Some allow \<Rightarrow>
                 Inr (modify this (\<lambda>obj. obj\<lparr>m_queuedOrigins :=
                                                remove_Vector (m_queuedOrigins obj) index\<rparr>)
                        (maybeCallbackFrames this origin allow w)))))"

text \<open>The loop of \<^verbatim>\<open>cancelPendingRequestsInOtherTabs\<close> over the instances still to visit.\<close>

fun cancelPendingRequestsLoop :: "nat list \<Rightarrow> String \<Rightarrow> world \<Rightarrow> error + world" where
  "cancelPendingRequestsLoop [] origin w = Inr w"
| "cancelPendingRequestsLoop (iter # iters) origin w =
     (case cancelPendingRequests iter origin w of
        Inl e \<Rightarrow> Inl e
      | Inr w' \<Rightarrow> cancelPendingRequestsLoop iters origin w')"

definition cancelPendingRequestsInOtherTabs :: "String \<Rightarrow> world \<Rightarrow> error + world" where
  "cancelPendingRequestsInOtherTabs origin w = cancelPendingRequestsLoop (s_instances w) origin w"

text \<open>
  After the early return, \<^verbatim>\<open>providePermissionState\<close> calls back the frames, records the
  decision, cancels in all instances when \<^verbatim>\<open>remember\<close> is set, starts the next queued
  request inside the \<^verbatim>\<open>if\<close>, and then assigns \<^verbatim>\<open>m_originInProgress = ""\<close> outside of it.
\<close>

definition providePermissionState :: "nat \<Rightarrow> String \<Rightarrow> bool \<Rightarrow> bool \<Rightarrow> world \<Rightarrow> error + world" where
  "providePermissionState this origin allow remember w =
     (if origin \<noteq> m_originInProgress (objects w this) then Inr w
      else
        case recordPermissionState this origin allow remember
               (maybeCallbackFrames this (m_originInProgress (objects w this)) allow w) of
          Inl e \<Rightarrow> Inl e
        | Inr w2 \<Rightarrow>
           (case (if remember
                  then cancelPendingRequestsInOtherTabs (m_originInProgress (objects w2 this)) w2
                  else Inr w2) of
              Inl e \<Rightarrow> Inl e
            | Inr w3 \<Rightarrow>
                Inr (modify this (\<lambda>obj. obj\<lparr>m_originInProgress := Some []\<rparr>)
                      (case m_queuedOrigins (objects w3 this) of
                         [] \<Rightarrow> w3
                       | first # rest \<Rightarrow>
                           modify this (\<lambda>obj. obj\<lparr>m_originInProgress := first,
                                                    m_queuedOrigins := rest,
                                                    calls := calls obj @ [ShowPrompt first]\<rparr>) w3))))"

definition timerFired :: "nat \<Rightarrow> world \<Rightarrow> world" where
  "timerFired this w =
     maybeCallbackFrames this (callback_origin (m_callbackData (objects w this)))
       (callback_allow (m_callbackData (objects w this))) w"

definition resetTemporaryPermissionStates :: "nat \<Rightarrow> world \<Rightarrow> world" where
  "resetTemporaryPermissionStates this w =
     modify this (\<lambda>obj. (stop (obj\<lparr>m_originInProgress := Some [],
                                    m_queuedOrigins := [],
                                    m_temporaryPermissions := Map.empty\<rparr>))
                          \<lparr>calls := calls obj @ [HidePrompt]\<rparr>) w"

text \<open>
  Modelled from the spec: the firing of \<^verbatim>\<open>WebCore::Timer\<close>, which is not part of the file.
  An active one-shot timer fires once: it becomes inactive and calls \<^verbatim>\<open>timerFired\<close>. An
  inactive timer does not fire.
\<close>

definition fireTimer :: "nat \<Rightarrow> world \<Rightarrow> world" where
  "fireTimer this w =
     (if m_timer (objects w this) then timerFired this (modify this stop w) else w)"

subsection \<open>Construction, destruction and the static functions\<close>

text \<open>
  The constructor default-constructs \<^verbatim>\<open>m_originInProgress\<close> and
  \<^verbatim>\<open>m_callbackData.origin\<close>, which are then null, and leaves \<^verbatim>\<open>m_callbackData.allow\<close>
  uninitialised; \<open>uninitialised\<close> is the value found there.
\<close>

definition constructor :: "nat \<Rightarrow> Frame list \<Rightarrow> bool \<Rightarrow> world \<Rightarrow> world" where
  "constructor this mainFrame uninitialised w =
     w\<lparr>s_instances := s_instances w @ [this],
       objects := (objects w)(this :=
         \<lparr>m_mainFrame = mainFrame,
          m_originInProgress = None,
          m_queuedOrigins = [],
          m_temporaryPermissions = Map.empty,
          m_callbackData = \<lparr>callback_origin = None, callback_allow = uninitialised\<rparr>,
          m_timer = False,
          calls = []\<rparr>)\<rparr>"

definition destructor :: "nat \<Rightarrow> world \<Rightarrow> error + world" where
  "destructor this w =
     (case find_Vector (s_instances w) this of
        None \<Rightarrow> Inl RemoveNotFound
      | Some index \<Rightarrow> Inr (w\<lparr>s_instances := remove_Vector (s_instances w) index\<rparr>))"

definition getOrigins :: "world \<Rightarrow> string set" where
  "getOrigins w = dom (s_permanentPermissions w)"

definition getAllowed :: "String \<Rightarrow> world \<Rightarrow> error + bool" where
  "getAllowed origin w =
     (case origin of
        None \<Rightarrow> Inl NullKeyHashed
      | Some key \<Rightarrow>
          Inr (case s_permanentPermissions w key of Some allowed \<Rightarrow> allowed | None \<Rightarrow> False))"

definition clear :: "String \<Rightarrow> world \<Rightarrow> error + world" where
  "clear origin w =
     (case origin of
        None \<Rightarrow> Inl NullKeyHashed
      | Some key \<Rightarrow> Inr (w\<lparr>s_permanentPermissions := (s_permanentPermissions w)(key := None)\<rparr>))"

definition clearAll :: "world \<Rightarrow> world" where
  "clearAll w = w\<lparr>s_permanentPermissions := Map.empty\<rparr>"

subsection \<open>The states a program reaches\<close>

text \<open>
  A program starts with both static members empty and whatever the memory holds. It then
  constructs objects at addresses that hold no live object, calls the member functions of
  live objects and the static functions, destroys live objects, lets active timers fire,
  and changes the frame tree of a tab. A call that fails ends the program.
\<close>

inductive reachable :: "world \<Rightarrow> bool" where
  start: "reachable \<lparr>s_permanentPermissions = Map.empty, s_instances = [], objects = memory\<rparr>"
| construct: "reachable w \<Longrightarrow> this \<notin> set (s_instances w) \<Longrightarrow>
     reachable (constructor this mainFrame uninitialised w)"
| destruct: "reachable w \<Longrightarrow> this \<in> set (s_instances w) \<Longrightarrow> destructor this w = Inr w' \<Longrightarrow>
     reachable w'"
| query: "reachable w \<Longrightarrow> this \<in> set (s_instances w) \<Longrightarrow>
     reachable (queryPermissionState this frame w)"
| provide: "reachable w \<Longrightarrow> this \<in> set (s_instances w) \<Longrightarrow>
     providePermissionState this origin allow remember w = Inr w' \<Longrightarrow> reachable w'"
| cancel: "reachable w \<Longrightarrow> this \<in> set (s_instances w) \<Longrightarrow>
     cancelPendingRequests this origin w = Inr w' \<Longrightarrow> reachable w'"
| reset: "reachable w \<Longrightarrow> this \<in> set (s_instances w) \<Longrightarrow>
     reachable (resetTemporaryPermissionStates this w)"
| timer: "reachable w \<Longrightarrow> this \<in> set (s_instances w) \<Longrightarrow> reachable (fireTimer this w)"
| forget: "reachable w \<Longrightarrow> clear origin w = Inr w' \<Longrightarrow> reachable w'"
| forgetAll: "reachable w \<Longrightarrow> reachable (clearAll w)"
| navigate: "reachable w \<Longrightarrow> this \<in> set (s_instances w) \<Longrightarrow>
     reachable (modify this (\<lambda>obj. obj\<lparr>m_mainFrame := frames\<rparr>) w)"

subsection \<open>Auxiliary definitions for the proofs\<close>

text \<open>
  What \<^verbatim>\<open>cancelPendingRequests(origin)\<close> does to an object when the permanent table
  holds \<open>allow\<close> for the origin; lemma \<open>cancelPendingRequests_recorded\<close> proves it.
\<close>

definition cancelled :: "String \<Rightarrow> bool \<Rightarrow> GeolocationPermissions \<Rightarrow> GeolocationPermissions" where
  "cancelled origin allow obj =
     (if origin \<in> set (m_queuedOrigins obj)
      then obj\<lparr>calls := calls obj @ setIsAllowedCalls (m_mainFrame obj) origin allow,
               m_queuedOrigins := remove1 origin (m_queuedOrigins obj)\<rparr>
      else obj)"

text \<open>
  Example states. All but \<open>tab_b_queued\<close> and \<open>tab_with_decisions\<close> are built by calls
  alone. \<open>tab_asking_a\<close>: a tab with two frames has asked for the first, and its prompt is
  shown. \<open>tab_after_reset\<close>: a tab was constructed and reset. \<open>two_tabs_asking\<close>: a second
  tab has asked for \<^verbatim>\<open>https://b.test\<close>, whose prompt is shown, and then for
  \<^verbatim>\<open>https://a.test\<close>, for which the first tab is still waiting. \<open>tab_b_queued\<close> puts an
  origin into a queue by hand, which no call sequence does.
\<close>

definition frame_a :: Frame where
  "frame_a = \<lparr>securityOrigin = ''https://a.test'', optionalGeolocation = Some 1\<rparr>"

definition frame_b :: Frame where
  "frame_b = \<lparr>securityOrigin = ''https://b.test'', optionalGeolocation = Some 2\<rparr>"



definition fresh_program :: world where
  "fresh_program =
     \<lparr>s_permanentPermissions = Map.empty,
      s_instances = [],
      objects = (\<lambda>_. \<lparr>m_mainFrame = [], m_originInProgress = None, m_queuedOrigins = [],
                       m_temporaryPermissions = Map.empty,
                       m_callbackData = \<lparr>callback_origin = None, callback_allow = False\<rparr>,
                       m_timer = False, calls = []\<rparr>)\<rparr>"

definition one_tab :: world where
  "one_tab = constructor 0 [frame_a, frame_b] False fresh_program"

definition tab_asking_a :: world where
  "tab_asking_a = queryPermissionState 0 frame_a one_tab"

definition tab_after_reset :: world where
  "tab_after_reset = resetTemporaryPermissionStates 0 one_tab"


definition tab_b_queued :: world where
  "tab_b_queued =
     modify 0 (\<lambda>obj. obj\<lparr>m_queuedOrigins := [Some ''https://b.test'']\<rparr>) tab_asking_a"

definition tab_with_decisions :: world where
  "tab_with_decisions =
     modify 0 (\<lambda>obj. obj\<lparr>m_temporaryPermissions := [''https://a.test'' \<mapsto> False]\<rparr>)
       (one_tab\<lparr>s_permanentPermissions := [''https://a.test'' \<mapsto> True]\<rparr>)"

section \<open>Basic facts\<close>

lemmas example_defs =
  frame_a_def frame_b_def fresh_program_def one_tab_def tab_asking_a_def tab_b_queued_def
  constructor_def queryPermissionState_def isEmpty_def
  makeAsynchronousCallbackToGeolocation_def startOneShot_def Let_def

lemma objects_modify [simp]:
  "objects (modify this f w) = (objects w)(this := f (objects w this))"
  by (simp add: modify_def)

lemma s_permanentPermissions_modify [simp]:
  "s_permanentPermissions (modify this f w) = s_permanentPermissions w"
  by (simp add: modify_def)

lemma s_instances_modify [simp]:
  "s_instances (modify this f w) = s_instances w"
  by (simp add: modify_def)

lemma modify_modify [simp]:
  "modify this f (modify this g w) = modify this (\<lambda>obj. f (g obj)) w"
  by (simp add: modify_def)

lemma find_Vector_None: "find_Vector xs v = None \<longleftrightarrow> v \<notin> set xs"
  by (induction xs) auto

lemma find_Vector_remove:
  "find_Vector xs v = Some index \<Longrightarrow> remove_Vector xs index = remove1 v xs"
  by (induction xs arbitrary: index) (auto simp: remove_Vector_def split: if_splits)

lemma cancelPendingRequests_recorded:
  assumes "s_permanentPermissions w key = Some allow"
  shows "cancelPendingRequests this (Some key) w = Inr (modify this (cancelled (Some key) allow) w)"
proof (cases "find_Vector (m_queuedOrigins (objects w this)) (Some key)")
  case None
  then have "Some key \<notin> set (m_queuedOrigins (objects w this))"
    by (simp add: find_Vector_None)
  with None show ?thesis
    by (simp add: cancelPendingRequests_def cancelled_def modify_def)
next
  case (Some index)
  then have "Some key \<in> set (m_queuedOrigins (objects w this))"
    using find_Vector_None [of "m_queuedOrigins (objects w this)" "Some key"] by auto
  with Some assms show ?thesis
    by (simp add: cancelPendingRequests_def cancelled_def maybeCallbackFrames_def
        find_Vector_remove)
qed

lemma cancelPendingRequests_not_queued:
  "origin \<notin> set (m_queuedOrigins (objects w this)) \<Longrightarrow> cancelPendingRequests this origin w = Inr w"
  by (simp add: cancelPendingRequests_def find_Vector_None [symmetric])

lemma cancelPendingRequestsLoop_tables:
  assumes "s_permanentPermissions w key = Some allow"
  shows "\<exists>w'. cancelPendingRequestsLoop iters (Some key) w = Inr w'
           \<and> s_permanentPermissions w' = s_permanentPermissions w
           \<and> s_instances w' = s_instances w
           \<and> (\<forall>b. m_temporaryPermissions (objects w' b) = m_temporaryPermissions (objects w b))"
  using assms
proof (induction iters arbitrary: w)
  case Nil
  then show ?case by simp
next
  case (Cons iter iters)
  let ?w' = "modify iter (cancelled (Some key) allow) w"
  have "s_permanentPermissions ?w' key = Some allow"
    using Cons.prems by simp
  from Cons.IH [OF this] obtain w'' where
    "cancelPendingRequestsLoop iters (Some key) ?w' = Inr w''"
    "s_permanentPermissions w'' = s_permanentPermissions ?w'"
    "s_instances w'' = s_instances ?w'"
    "\<forall>b. m_temporaryPermissions (objects w'' b) = m_temporaryPermissions (objects ?w' b)"
    by blast
  then show ?case
    using Cons.prems by (simp add: cancelPendingRequests_recorded cancelled_def)
qed

lemma cancelPendingRequestsLoop_empty_queues:
  "\<forall>a\<in>set iters. m_queuedOrigins (objects w a) = [] \<Longrightarrow>
   cancelPendingRequestsLoop iters origin w = Inr w"
  by (induction iters) (simp_all add: cancelPendingRequests_not_queued)

lemma cancelPendingRequests_instances:
  "cancelPendingRequests this origin w = Inr w' \<Longrightarrow> s_instances w' = s_instances w"
  by (auto simp: cancelPendingRequests_def maybeCallbackFrames_def split: option.splits)

lemma cancelPendingRequestsLoop_instances:
  "cancelPendingRequestsLoop iters origin w = Inr w' \<Longrightarrow> s_instances w' = s_instances w"
proof (induction iters arbitrary: w)
  case Nil
  then show ?case by simp
next
  case (Cons iter iters)
  then show ?case
    by (cases "cancelPendingRequests iter origin w") (auto dest: cancelPendingRequests_instances)
qed

text \<open>
  \<^verbatim>\<open>recordPermissionState\<close> for the origin in progress, after the frames were called back:
  it returns, and changes one table.
\<close>

lemma recordPermissionState_in_progress:
  assumes "m_originInProgress (objects w this) = Some key"
  shows "recordPermissionState this (Some key) allow remember
           (maybeCallbackFrames this (Some key) allow w) =
         Inr (if remember
              then modify this (\<lambda>obj. obj\<lparr>calls := calls obj
                                                 @ setIsAllowedCalls (m_mainFrame obj) (Some key) allow,
                                             m_temporaryPermissions :=
                                               (m_temporaryPermissions obj)(key := None)\<rparr>)
                     (w\<lparr>s_permanentPermissions := (s_permanentPermissions w)(key \<mapsto> allow)\<rparr>)
              else modify this (\<lambda>obj. obj\<lparr>calls := calls obj
                                                 @ setIsAllowedCalls (m_mainFrame obj) (Some key) allow,
                                             m_temporaryPermissions :=
                                               (m_temporaryPermissions obj)(key \<mapsto> allow)\<rparr>) w)"
  using assms
  by (simp add: recordPermissionState_def maybeCallbackFrames_def modify_def)

lemma recordPermissionState_frame:
  assumes "recordPermissionState this origin allow remember w = Inr w2"
  shows "s_instances w2 = s_instances w"
    and "m_queuedOrigins (objects w2 a) = m_queuedOrigins (objects w a)"
    and "m_originInProgress (objects w2 a) = m_originInProgress (objects w a)"
  using assms
  by (auto simp: recordPermissionState_def split: option.splits if_splits)

lemma providePermissionState_accepted:
  assumes "providePermissionState this origin allow remember w = Inr w'"
    and "origin = m_originInProgress (objects w this)"
  obtains w3 where "s_instances w3 = s_instances w"
    and "w' = modify this (\<lambda>obj. obj\<lparr>m_originInProgress := Some []\<rparr>)
                (case m_queuedOrigins (objects w3 this) of
                   [] \<Rightarrow> w3
                 | first # rest \<Rightarrow>
                     modify this (\<lambda>obj. obj\<lparr>m_originInProgress := first,
                                              m_queuedOrigins := rest,
                                              calls := calls obj @ [ShowPrompt first]\<rparr>) w3)"
proof -
  obtain w2 where w2: "recordPermissionState this origin allow remember
                         (maybeCallbackFrames this origin allow w) = Inr w2"
    using assms by (auto simp: providePermissionState_def split: sum.splits)
  have insts: "s_instances w2 = s_instances w"
    using recordPermissionState_frame(1) [OF w2] by (simp add: maybeCallbackFrames_def)
  obtain w3 where "s_instances w3 = s_instances w2"
    and "w' = modify this (\<lambda>obj. obj\<lparr>m_originInProgress := Some []\<rparr>)
                (case m_queuedOrigins (objects w3 this) of
                   [] \<Rightarrow> w3
                 | first # rest \<Rightarrow>
                     modify this (\<lambda>obj. obj\<lparr>m_originInProgress := first,
                                              m_queuedOrigins := rest,
                                              calls := calls obj @ [ShowPrompt first]\<rparr>) w3)"
    using assms w2
    by (cases remember)
      (auto simp: providePermissionState_def cancelPendingRequestsInOtherTabs_def
        split: sum.splits dest: cancelPendingRequestsLoop_instances)
  with insts that show thesis by simp
qed

lemma providePermissionState_instances:
  assumes "providePermissionState this origin allow remember w = Inr w'"
  shows "s_instances w' = s_instances w"
proof (cases "origin = m_originInProgress (objects w this)")
  case False
  with assms show ?thesis by (simp add: providePermissionState_def)
next
  case True
  from providePermissionState_accepted [OF assms True] obtain w3 where
    "s_instances w3 = s_instances w"
    "w' = modify this (\<lambda>obj. obj\<lparr>m_originInProgress := Some []\<rparr>)
            (case m_queuedOrigins (objects w3 this) of
               [] \<Rightarrow> w3
             | first # rest \<Rightarrow>
                 modify this (\<lambda>obj. obj\<lparr>m_originInProgress := first,
                                          m_queuedOrigins := rest,
                                          calls := calls obj @ [ShowPrompt first]\<rparr>) w3)"
    by blast
  then show ?thesis by (simp split: list.split)
qed

lemma reachable_distinct_instances: "reachable w \<Longrightarrow> distinct (s_instances w)"
proof (induction rule: reachable.induct)
  case (destruct w this w')
  then show ?case
    by (auto simp: destructor_def find_Vector_remove split: option.splits)
next
  case (provide w this origin allow remember w')
  then show ?case by (simp add: providePermissionState_instances)
next
  case (cancel w this origin w')
  then show ?case by (simp add: cancelPendingRequests_instances)
next
  case (forget w origin w')
  then show ?case by (auto simp: clear_def split: option.splits)
qed (simp_all add: constructor_def queryPermissionState_def Let_def
      makeAsynchronousCallbackToGeolocation_def resetTemporaryPermissionStates_def fireTimer_def
      timerFired_def maybeCallbackFrames_def clearAll_def split: option.splits)

text \<open>
  The queue of every live object of a reached state is empty. The last section states
  this as a claim; the claims before it use the fact.
\<close>

lemma reachable_queues_empty:
  "reachable w \<Longrightarrow> \<forall>a\<in>set (s_instances w). m_queuedOrigins (objects w a) = []"
proof (induction rule: reachable.induct)
  case (start memory)
  then show ?case by simp
next
  case (construct w this mainFrame uninitialised)
  then show ?case by (simp add: constructor_def)
next
  case (destruct w this w')
  then show ?case
    by (auto simp: destructor_def find_Vector_remove split: option.splits dest: notin_set_remove1)
next
  case (query w this frame)
  then show ?case
    by (auto simp: queryPermissionState_def makeAsynchronousCallbackToGeolocation_def
        startOneShot_def Let_def find_Vector_None split: option.splits)
next
  case (provide w this origin allow remember w')
  show ?case
  proof (cases "origin = m_originInProgress (objects w this)")
    case False
    with provide show ?thesis by (simp add: providePermissionState_def)
  next
    case True
    obtain w2 where w2: "recordPermissionState this origin allow remember
                           (maybeCallbackFrames this origin allow w) = Inr w2"
      using provide.hyps(3) True by (auto simp: providePermissionState_def split: sum.splits)
    have insts: "s_instances w2 = s_instances w"
      using recordPermissionState_frame(1) [OF w2] by (simp add: maybeCallbackFrames_def)
    have queues: "m_queuedOrigins (objects w2 a) = m_queuedOrigins (objects w a)" for a
      using recordPermissionState_frame(2) [OF w2, of a] by (simp add: maybeCallbackFrames_def)
    have loop: "cancelPendingRequestsLoop (s_instances w2) origin' w2 = Inr w2" for origin'
      using provide.IH insts queues by (intro cancelPendingRequestsLoop_empty_queues) simp
    have "m_queuedOrigins (objects w2 this) = []"
      using provide.IH provide.hyps(2) queues by simp
    with loop have "w' = modify this (\<lambda>obj. obj\<lparr>m_originInProgress := Some []\<rparr>) w2"
      using provide.hyps(3) True w2
      by (cases remember)
        (simp_all add: providePermissionState_def cancelPendingRequestsInOtherTabs_def)
    then show ?thesis
      using provide.IH insts queues by simp
  qed
next
  case (cancel w this origin w')
  then show ?case
    by (simp add: cancelPendingRequests_not_queued)
next
  case (reset w this)
  then show ?case by (simp add: resetTemporaryPermissionStates_def stop_def)
next
  case (timer w this)
  then show ?case
    by (simp add: fireTimer_def timerFired_def maybeCallbackFrames_def stop_def)
next
  case (forget w origin w')
  then show ?case by (auto simp: clear_def split: option.splits)
next
  case (forgetAll w)
  then show ?case by (simp add: clearAll_def)
next
  case (navigate w this frames)
  then show ?case by simp
qed


lemma live_destructor_returns:
  "this \<in> set (s_instances w) \<Longrightarrow> \<exists>w'. destructor this w = Inr w'"
  using find_Vector_None [of "s_instances w" this]
  by (auto simp: destructor_def split: option.splits)

lemma reachable_one_tab: "reachable one_tab"
proof -
  have "reachable fresh_program"
    unfolding fresh_program_def by (rule reachable.start)
  then show ?thesis
    unfolding one_tab_def by (rule reachable.construct) (simp add: fresh_program_def)
qed

lemma reachable_tab_asking_a: "reachable tab_asking_a"
  unfolding tab_asking_a_def
  using reachable_one_tab by (rule reachable.query) (simp add: example_defs)

lemma reachable_tab_after_reset: "reachable tab_after_reset"
  unfolding tab_after_reset_def
  using reachable_one_tab by (rule reachable.reset) (simp add: example_defs)



text \<open>
  An answer for the origin in progress, in any state: the call returns and the decision is
  in the table that \<^verbatim>\<open>remember\<close> selects. The loop over the instances cannot fail, because
  the permanent entry was set before it.
\<close>

lemma accepted_answer_recorded:
  assumes "m_originInProgress (objects w this) = Some origin"
  shows "\<exists>w'. providePermissionState this (Some origin) allow remember w = Inr w'
           \<and> (if remember
              then s_permanentPermissions w' origin = Some allow
                   \<and> m_temporaryPermissions (objects w' this) origin = None
              else m_temporaryPermissions (objects w' this) origin = Some allow
                   \<and> s_permanentPermissions w' origin = s_permanentPermissions w origin)"
proof -
  define w2 where "w2 =
    (if remember
     then modify this (\<lambda>obj. obj\<lparr>calls := calls obj
                                        @ setIsAllowedCalls (m_mainFrame obj) (Some origin) allow,
                                    m_temporaryPermissions :=
                                      (m_temporaryPermissions obj)(origin := None)\<rparr>)
            (w\<lparr>s_permanentPermissions := (s_permanentPermissions w)(origin \<mapsto> allow)\<rparr>)
     else modify this (\<lambda>obj. obj\<lparr>calls := calls obj
                                        @ setIsAllowedCalls (m_mainFrame obj) (Some origin) allow,
                                    m_temporaryPermissions :=
                                      (m_temporaryPermissions obj)(origin \<mapsto> allow)\<rparr>) w)"
  have recorded: "recordPermissionState this (Some origin) allow remember
                    (maybeCallbackFrames this (Some origin) allow w) = Inr w2"
    unfolding w2_def by (rule recordPermissionState_in_progress [OF assms])
  have inprogress: "m_originInProgress (objects w2 this) = Some origin"
    using assms by (simp add: w2_def)
  show ?thesis
  proof (cases remember)
    case False
    with recorded assms show ?thesis
      by (simp add: providePermissionState_def w2_def split: list.split)
  next
    case True
    have perm: "s_permanentPermissions w2 origin = Some allow"
      using True by (simp add: w2_def)
    have temp: "m_temporaryPermissions (objects w2 this) origin = None"
      using True by (simp add: w2_def)
    from cancelPendingRequestsLoop_tables [OF perm, of "s_instances w2"] obtain w3 where
      w3: "cancelPendingRequestsInOtherTabs (Some origin) w2 = Inr w3"
        "s_permanentPermissions w3 = s_permanentPermissions w2"
        "\<forall>b. m_temporaryPermissions (objects w3 b) = m_temporaryPermissions (objects w2 b)"
      unfolding cancelPendingRequestsInOtherTabs_def by blast
    show ?thesis
      using assms True recorded inprogress w3 perm temp
      by (simp add: providePermissionState_def split: list.split)
  qed
qed

text \<open>
  A never prompted object holds the null String in \<^verbatim>\<open>m_originInProgress\<close>. An answer for
  the null origin passes the comparison and fails when \<^verbatim>\<open>recordPermissionState\<close> hashes
  the key; an answer for any other origin, the empty one too, returns early.
\<close>

lemma null_origin_faults:
  "m_originInProgress (objects w this) = None \<Longrightarrow>
   providePermissionState this None allow remember w = Inl NullKeyHashed"
  by (simp add: providePermissionState_def recordPermissionState_def maybeCallbackFrames_def)

lemma never_prompted_returns_early:
  "m_originInProgress (objects w this) = None \<Longrightarrow>
   providePermissionState this (Some origin) allow remember w = Inr w"
  by (simp add: providePermissionState_def)

section \<open>The claims\<close>

subsection \<open>C1: the request started from the queue\<close>

text \<open>
  In every state, reached or not, an answer that \<^verbatim>\<open>providePermissionState\<close> accepts
  leaves \<^verbatim>\<open>m_originInProgress\<close> empty: the assignment \<^verbatim>\<open>m_originInProgress = ""\<close> stands
  after the \<^verbatim>\<open>if\<close> that starts the next request, not in an \<^verbatim>\<open>else\<close>.
\<close>

lemma providePermissionState_clears_in_progress:
  assumes "providePermissionState this origin allow remember w = Inr w'"
    and "origin = m_originInProgress (objects w this)"
  shows "m_originInProgress (objects w' this) = Some []"
proof -
  from providePermissionState_accepted [OF assms] obtain w3 where
    "w' = modify this (\<lambda>obj. obj\<lparr>m_originInProgress := Some []\<rparr>)
            (case m_queuedOrigins (objects w3 this) of
               [] \<Rightarrow> w3
             | first # rest \<Rightarrow>
                 modify this (\<lambda>obj. obj\<lparr>m_originInProgress := first,
                                          m_queuedOrigins := rest,
                                          calls := calls obj @ [ShowPrompt first]\<rparr>) w3)"
    by blast
  then show ?thesis by simp
qed



subsection \<open>C2: queueing a second origin\<close>

text \<open>
  \<^verbatim>\<open>queryPermissionState\<close> changes the queue only for an origin that the queue holds
  already: the test is \<^verbatim>\<open>m_queuedOrigins.find(originString) != WTF::notFound\<close>.
\<close>

lemma queryPermissionState_appends_only_queued:
  assumes "m_queuedOrigins (objects (queryPermissionState this frame w) this)
             \<noteq> m_queuedOrigins (objects w this)"
  shows "Some (securityOrigin frame) \<in> set (m_queuedOrigins (objects w this))
         \<and> m_queuedOrigins (objects (queryPermissionState this frame w) this)
             = m_queuedOrigins (objects w this) @ [Some (securityOrigin frame)]"
proof (cases "Some (securityOrigin frame) \<in> set (m_queuedOrigins (objects w this))")
  case True
  with assms show ?thesis
    by (auto simp: queryPermissionState_def Let_def makeAsynchronousCallbackToGeolocation_def
        startOneShot_def split: option.splits if_splits)
next
  case False
  then have "find_Vector (m_queuedOrigins (objects w this)) (Some (securityOrigin frame)) = None"
    by (simp add: find_Vector_None)
  with assms show ?thesis
    by (auto simp: queryPermissionState_def Let_def makeAsynchronousCallbackToGeolocation_def
        startOneShot_def split: option.splits if_splits)
qed

text \<open>
  Claim C2 says that a query for an origin O that neither table resolves, made while another
  origin is in progress, appends O to the queue exactly when the queue does not hold O yet.
  The code does the opposite. In \<open>tab_asking_a\<close> the origin in progress is
  \<^verbatim>\<open>https://a.test\<close> and the queue is empty: the query for \<^verbatim>\<open>https://b.test\<close> leaves the
  queue empty. In \<open>tab_b_queued\<close> the queue holds \<^verbatim>\<open>https://b.test\<close>: the query appends
  it a second time.
\<close>

theorem queryPermissionState_does_not_queue:
  "m_originInProgress (objects tab_asking_a 0) = Some ''https://a.test''
   \<and> m_queuedOrigins (objects tab_asking_a 0) = []
   \<and> m_queuedOrigins (objects (queryPermissionState 0 frame_b tab_asking_a) 0) = []
   \<and> m_queuedOrigins (objects (queryPermissionState 0 frame_b tab_b_queued) 0)
       = [Some ''https://b.test'', Some ''https://b.test'']"
  by (simp add: example_defs)

subsection \<open>C3: the temporary decision comes first\<close>

text \<open>
  Claim C3. For an origin with a temporary decision \<open>d_t\<close> in the object's table and a
  permanent decision \<open>d_p\<close>, \<^verbatim>\<open>queryPermissionState\<close> puts the origin and \<open>d_t\<close> into
  \<^verbatim>\<open>m_callbackData\<close>, starts the timer and changes nothing else, whatever \<open>d_t\<close> and
  \<open>d_p\<close> are; when the timer fires, the frames of the origin are called back with \<open>d_t\<close>.
\<close>

theorem queryPermissionState_temporary_first:
  assumes "m_temporaryPermissions (objects w this) (securityOrigin frame) = Some d_t"
    and "s_permanentPermissions w (securityOrigin frame) = Some d_p"
  shows "queryPermissionState this frame w =
           modify this (\<lambda>obj. obj\<lparr>m_callbackData :=
                                     \<lparr>callback_origin = Some (securityOrigin frame),
                                      callback_allow = d_t\<rparr>,
                                   m_timer := True\<rparr>) w
         \<and> calls (objects (fireTimer this (queryPermissionState this frame w)) this) =
             calls (objects w this)
             @ setIsAllowedCalls (m_mainFrame (objects w this)) (Some (securityOrigin frame)) d_t"
  using assms
  by (simp add: queryPermissionState_def makeAsynchronousCallbackToGeolocation_def
      startOneShot_def fireTimer_def timerFired_def maybeCallbackFrames_def stop_def)

theorem queryPermissionState_temporary_first_witness:
  "m_temporaryPermissions (objects tab_with_decisions 0) (securityOrigin frame_a) = Some False
   \<and> s_permanentPermissions tab_with_decisions (securityOrigin frame_a) = Some True
   \<and> calls (objects (fireTimer 0 (queryPermissionState 0 frame_a tab_with_decisions)) 0)
       = [SetIsAllowed 1 False]"
proof -
  have temporary: "m_temporaryPermissions (objects tab_with_decisions 0) (securityOrigin frame_a) = Some False"
    by (simp add: tab_with_decisions_def example_defs)
  have permanent: "s_permanentPermissions tab_with_decisions (securityOrigin frame_a) = Some True"
    by (simp add: tab_with_decisions_def example_defs)
  have "calls (objects tab_with_decisions 0) = []"
    and "m_mainFrame (objects tab_with_decisions 0) = [frame_a, frame_b]"
    by (simp_all add: tab_with_decisions_def example_defs)
  with temporary permanent
    queryPermissionState_temporary_first [OF temporary permanent, THEN conjunct2]
  show ?thesis by (simp add: frame_a_def frame_b_def)
qed

subsection \<open>C4: a remembered decision and the waiting request of another tab\<close>


subsection \<open>C5: a stale answer\<close>

text \<open>
  Claim C5 says that a call of \<^verbatim>\<open>providePermissionState\<close> whose origin differs from the
  origin in progress has no effect, also when none is in progress. With none in progress
  the code compares the origin with what \<^verbatim>\<open>m_originInProgress\<close> then holds, and accepts
  an equal one: after a reset that is the empty String, and the answer for the empty origin
  is recorded in the permanent table.
\<close>

theorem empty_origin_accepted_after_reset:
  "reachable tab_after_reset \<and> 0 \<in> set (s_instances tab_after_reset)
   \<and> isEmpty (m_originInProgress (objects tab_after_reset 0))
   \<and> providePermissionState 0 (Some []) True True tab_after_reset \<noteq> Inr tab_after_reset"
proof -
  have live: "0 \<in> set (s_instances tab_after_reset)"
    and none: "m_originInProgress (objects tab_after_reset 0) = Some []"
    and unset: "s_permanentPermissions tab_after_reset [] = None"
    by (simp_all add: tab_after_reset_def resetTemporaryPermissionStates_def stop_def example_defs)
  obtain w' where run: "providePermissionState 0 (Some []) True True tab_after_reset = Inr w'"
    and recorded: "s_permanentPermissions w' [] = Some True"
    using accepted_answer_recorded [OF none, of True True] by auto
  from recorded unset have "w' \<noteq> tab_after_reset" by auto
  with run have "providePermissionState 0 (Some []) True True tab_after_reset \<noteq> Inr tab_after_reset"
    by simp
  with reachable_tab_after_reset live none show ?thesis by (simp add: isEmpty_def)
qed

text \<open>
  Claim C5, amended. A call of \<^verbatim>\<open>providePermissionState\<close> whose origin is not equal, as a
  String, to \<^verbatim>\<open>m_originInProgress\<close> returns with the whole program state as it was: no
  frame is called back, no table, queue or prompt changes. With none in progress
  \<^verbatim>\<open>m_originInProgress\<close> is the null String (after construction) or the empty String
  (after a reset or an accepted answer), and the call has no effect for every other origin.
\<close>

theorem providePermissionState_stale_answer:
  "origin \<noteq> m_originInProgress (objects w this) \<Longrightarrow>
   providePermissionState this origin allow remember w = Inr w"
  by (simp add: providePermissionState_def)

theorem providePermissionState_stale_answer_witness:
  "Some ''https://b.test'' \<noteq> m_originInProgress (objects tab_asking_a 0)
   \<and> providePermissionState 0 (Some ''https://b.test'') True True tab_asking_a = Inr tab_asking_a
   \<and> Some [] \<noteq> m_originInProgress (objects one_tab 0)
   \<and> providePermissionState 0 (Some []) True True one_tab = Inr one_tab"
proof -
  have stale: "Some ''https://b.test'' \<noteq> m_originInProgress (objects tab_asking_a 0)"
    and never_asked: "Some [] \<noteq> m_originInProgress (objects one_tab 0)"
    by (simp_all add: example_defs)
  from stale never_asked providePermissionState_stale_answer [OF stale]
    providePermissionState_stale_answer [OF never_asked]
  show ?thesis by simp
qed

subsection \<open>C6: where the decision is recorded\<close>

text \<open>
  Claim C6. A call of \<^verbatim>\<open>providePermissionState\<close> for the origin in progress returns. With
  \<^verbatim>\<open>remember\<close> set, the permanent table then maps the origin to the decision and the
  object's temporary table has no entry for it; otherwise the temporary table maps the
  origin to the decision and the permanent entry of the origin is what it was. An origin is
  in progress when \<^verbatim>\<open>m_originInProgress\<close> holds its characters, so a never prompted object,
  whose \<^verbatim>\<open>m_originInProgress\<close> is null, is no case of the claim.
\<close>

theorem providePermissionState_records:
  assumes "m_originInProgress (objects w this) = Some origin"
  shows "\<exists>w'. providePermissionState this (Some origin) allow remember w = Inr w'
           \<and> (if remember
              then s_permanentPermissions w' origin = Some allow
                   \<and> m_temporaryPermissions (objects w' this) origin = None
              else m_temporaryPermissions (objects w' this) origin = Some allow
                   \<and> s_permanentPermissions w' origin = s_permanentPermissions w origin)"
  using assms by (rule accepted_answer_recorded)

theorem providePermissionState_records_witness:
  "m_originInProgress (objects tab_asking_a 0) = Some ''https://a.test''
   \<and> (\<exists>w'. providePermissionState 0 (Some ''https://a.test'') True True tab_asking_a = Inr w'
         \<and> s_permanentPermissions w' ''https://a.test'' = Some True
         \<and> m_temporaryPermissions (objects w' 0) ''https://a.test'' = None)
   \<and> (\<exists>w'. providePermissionState 0 (Some ''https://a.test'') False False tab_asking_a = Inr w'
         \<and> m_temporaryPermissions (objects w' 0) ''https://a.test'' = Some False
         \<and> s_permanentPermissions w' ''https://a.test'' = None)"
proof -
  have asked: "m_originInProgress (objects tab_asking_a 0) = Some ''https://a.test''"
    by (simp add: example_defs)
  have "s_permanentPermissions tab_asking_a ''https://a.test'' = None"
    by (simp add: example_defs)
  with asked providePermissionState_records [OF asked, of True True]
    providePermissionState_records [OF asked, of False False]
  show ?thesis by simp
qed

subsection \<open>C7: reset\<close>

text \<open>
  Claim C7. After \<^verbatim>\<open>resetTemporaryPermissionStates\<close> no origin is in progress, the queue
  and the temporary table are empty, the timer is stopped, so that no delivery follows, and
  the permanent table is the table from before the call.
\<close>

theorem resetTemporaryPermissionStates_clears:
  "m_originInProgress (objects (resetTemporaryPermissionStates this w) this) = Some []
   \<and> m_queuedOrigins (objects (resetTemporaryPermissionStates this w) this) = []
   \<and> m_temporaryPermissions (objects (resetTemporaryPermissionStates this w) this) = Map.empty
   \<and> \<not> m_timer (objects (resetTemporaryPermissionStates this w) this)
   \<and> fireTimer this (resetTemporaryPermissionStates this w) = resetTemporaryPermissionStates this w
   \<and> s_permanentPermissions (resetTemporaryPermissionStates this w) = s_permanentPermissions w"
  by (simp add: resetTemporaryPermissionStates_def stop_def fireTimer_def)

theorem resetTemporaryPermissionStates_clears_witness:
  "m_originInProgress (objects tab_b_queued 0) = Some ''https://a.test''
   \<and> m_queuedOrigins (objects tab_b_queued 0) = [Some ''https://b.test'']
   \<and> m_originInProgress (objects (resetTemporaryPermissionStates 0 tab_b_queued) 0) = Some []
   \<and> m_queuedOrigins (objects (resetTemporaryPermissionStates 0 tab_b_queued) 0) = []
   \<and> s_permanentPermissions (resetTemporaryPermissionStates 0 tab_b_queued)
       = s_permanentPermissions tab_b_queued"
  using resetTemporaryPermissionStates_clears [of 0 tab_b_queued]
  by (simp add: resetTemporaryPermissionStates_def stop_def example_defs)

subsection \<open>C8: cancelling without a permanent entry\<close>

text \<open>
  The text of \<^verbatim>\<open>cancelPendingRequests\<close> has no branch for a queued origin that the
  permanent table does not hold: it reads the decision through the end iterator. That
  needs a queue that holds the origin, which no reached state has.
\<close>

lemma cancelPendingRequests_without_entry:
  "Some origin \<in> set (m_queuedOrigins (objects w this)) \<Longrightarrow>
   s_permanentPermissions w origin = None \<Longrightarrow>
   cancelPendingRequests this (Some origin) w = Inl EndIteratorDereferenced"
  using find_Vector_None [of "m_queuedOrigins (objects w this)" "Some origin"]
  by (auto simp: cancelPendingRequests_def split: option.splits)



subsection \<open>C9: one pending callback\<close>

text \<open>
  Claim C9. After two calls of \<^verbatim>\<open>makeAsynchronousCallbackToGeolocation\<close> with no firing
  of the timer between them, \<^verbatim>\<open>m_callbackData\<close> holds the second pair and the timer is
  active. The firing calls back the frames once, with the second pair, and nothing with
  the first; a second firing does nothing.
\<close>

theorem single_pending_callback:
  "m_callbackData (objects (makeAsynchronousCallbackToGeolocation this origin2 allow2
       (makeAsynchronousCallbackToGeolocation this origin1 allow1 w)) this)
     = \<lparr>callback_origin = origin2, callback_allow = allow2\<rparr>
   \<and> m_timer (objects (makeAsynchronousCallbackToGeolocation this origin2 allow2
       (makeAsynchronousCallbackToGeolocation this origin1 allow1 w)) this)
   \<and> fireTimer this (makeAsynchronousCallbackToGeolocation this origin2 allow2
       (makeAsynchronousCallbackToGeolocation this origin1 allow1 w))
     = modify this (\<lambda>obj. obj\<lparr>m_callbackData := \<lparr>callback_origin = origin2, callback_allow = allow2\<rparr>,
                              m_timer := False,
                              calls := calls obj @ setIsAllowedCalls (m_mainFrame obj) origin2 allow2\<rparr>) w
   \<and> fireTimer this (fireTimer this (makeAsynchronousCallbackToGeolocation this origin2 allow2
       (makeAsynchronousCallbackToGeolocation this origin1 allow1 w)))
     = fireTimer this (makeAsynchronousCallbackToGeolocation this origin2 allow2
       (makeAsynchronousCallbackToGeolocation this origin1 allow1 w))"
  by (simp add: makeAsynchronousCallbackToGeolocation_def
      startOneShot_def fireTimer_def timerFired_def maybeCallbackFrames_def stop_def)

theorem single_pending_callback_witness:
  "m_callbackData (objects (makeAsynchronousCallbackToGeolocation 0 (Some ''https://b.test'') False
       (makeAsynchronousCallbackToGeolocation 0 (Some ''https://a.test'') True one_tab)) 0)
     = \<lparr>callback_origin = Some ''https://b.test'', callback_allow = False\<rparr>
   \<and> calls (objects (fireTimer 0 (makeAsynchronousCallbackToGeolocation 0 (Some ''https://b.test'') False
       (makeAsynchronousCallbackToGeolocation 0 (Some ''https://a.test'') True one_tab))) 0)
     = [SetIsAllowed 2 False]"
  using single_pending_callback
    [of 0 "Some ''https://b.test''" False "Some ''https://a.test''" True one_tab]
  by (simp add: frame_a_def frame_b_def fresh_program_def one_tab_def constructor_def)

subsection \<open>C10: the queue stays empty\<close>

text \<open>
  Claim C10. In every state that a program reaches, the queue of every live object is
  empty: \<^verbatim>\<open>queryPermissionState\<close> appends an origin only where the queue holds it already.
\<close>

theorem queue_always_empty:
  "reachable w \<Longrightarrow> this \<in> set (s_instances w) \<Longrightarrow> m_queuedOrigins (objects w this) = []"
  using reachable_queues_empty by blast

theorem queue_always_empty_witness:
  "reachable (queryPermissionState 0 frame_b tab_asking_a)
   \<and> 0 \<in> set (s_instances (queryPermissionState 0 frame_b tab_asking_a))
   \<and> m_queuedOrigins (objects (queryPermissionState 0 frame_b tab_asking_a) 0) = []"
proof -
  have r: "reachable (queryPermissionState 0 frame_b tab_asking_a)"
    using reachable_tab_asking_a by (rule reachable.query) (simp add: example_defs)
  have live: "0 \<in> set (s_instances (queryPermissionState 0 frame_b tab_asking_a))"
    by (simp add: example_defs)
  from r live queue_always_empty [OF r live] show ?thesis by simp
qed

end
